theory Spec2Isabelle
  imports Complex_Main
begin

section \<open>The graph model of the flow builder\<close>

text \<open>
  The editor state of \<^verbatim>\<open>FlowBuilder.tsx\<close> is three React state cells: the node list, the
  edge list and the selected node. Every handler of the component is embedded as a function
  from the state before the event to the state after it, paired with the list of toasts the
  handler emits (the calls of \<^verbatim>\<open>toast(...)\<close>, in order).

  Field names follow the source, prefixed where a bare name is reserved or already a
  constant of HOL: \<^verbatim>\<open>id\<close>, \<^verbatim>\<open>type\<close>, \<^verbatim>\<open>position\<close>, \<^verbatim>\<open>data\<close> of a node are \<open>node_id\<close>,
  \<open>node_type\<close>, \<open>node_position\<close>, \<open>node_data\<close>; \<^verbatim>\<open>x\<close>, \<^verbatim>\<open>y\<close> are \<open>pos_x\<close>, \<open>pos_y\<close>;
  the \<^verbatim>\<open>id\<close> of an edge is \<open>edge_id\<close>.
\<close>

text \<open>
  A position is a pair of JavaScript numbers. No handler computes with them: they are
  stored and copied, and are carried here as reals.
\<close>

record position =
  pos_x :: real
  pos_y :: real

text \<open>
  A node's \<^verbatim>\<open>data\<close> is a JavaScript object with string values (\<^verbatim>\<open>TextNodeData\<close> has the keys
  \<^verbatim>\<open>text\<close> and \<^verbatim>\<open>label\<close>; a \<^verbatim>\<open>Partial<TextNodeData>\<close> may lack either): a map from keys to
  strings. Object spread \<^verbatim>\<open>{ ...a, ...b }\<close> is then \<open>a ++ b\<close>.
\<close>

type_synonym data = "string \<rightharpoonup> string"

record node =
  node_id :: string
  node_type :: string
  node_position :: position
  node_data :: data

text \<open>
  A \<^verbatim>\<open>Connection\<close> names source and target node and handle; an \<^verbatim>\<open>Edge\<close> is a connection with
  an id. The handle of a connection is \<^verbatim>\<open>string | null\<close>; the handle of a stored edge is
  \<^verbatim>\<open>string | null | undefined\<close>, and \<^verbatim>\<open>undefined\<close> is also what reading a missing key gives.
  Strict equality \<^verbatim>\<open>===\<close> tells the three kinds of value apart, so the model does: \<open>Absent\<close>
  for \<^verbatim>\<open>undefined\<close> or no key, \<open>Null\<close> for \<^verbatim>\<open>null\<close>, \<open>Handle s\<close> for the string \<open>s\<close>. Equality
  of the datatype is then \<^verbatim>\<open>===\<close>.
\<close>

datatype handle = Absent | Null | Handle string

record connection =
  source :: string
  target :: string
  sourceHandle :: handle
  targetHandle :: handle

record edge = connection +
  edge_id :: string

text \<open>A toast: title, description and the optional \<^verbatim>\<open>variant\<close>.\<close>

record toast =
  title :: string
  description :: string
  variant :: "string option"

record state =
  nodes :: "node list"
  edges :: "edge list"
  selectedNode :: "node option"

subsection \<open>Initial state\<close>

definition initialNodes :: "node list" where
  "initialNodes =
     [\<lparr>node_id = ''1'',
       node_type = ''textNode'',
       node_position = \<lparr>pos_x = 250, pos_y = 200\<rparr>,
       node_data = [''text'' \<mapsto> ''Welcome! Start building your chatbot flow.'',
                    ''label'' \<mapsto> ''Welcome Message'']\<rparr>]"

definition initialEdges :: "edge list" where
  "initialEdges = []"

definition initialState :: state where
  "initialState = \<lparr>nodes = initialNodes, edges = initialEdges, selectedNode = None\<rparr>"

subsection \<open>The toasts of the component\<close>

definition connectionErrorToast :: toast where
  "connectionErrorToast =
     \<lparr>title = ''Connection Error'',
      description = ''Each source handle can only have one outgoing connection.'',
      variant = Some ''destructive''\<rparr>"

definition flowSavedToast :: toast where
  "flowSavedToast =
     \<lparr>title = ''Flow Saved'',
      description = ''Your chatbot flow has been saved successfully.'',
      variant = None\<rparr>"

definition validationErrorToast :: toast where
  "validationErrorToast =
     \<lparr>title = ''Validation Error'',
      description = ''Cannot save flow: More than one node has empty target handles.'',
      variant = Some ''destructive''\<rparr>"

subsection \<open>saveFlow\<close>

text \<open>
  \<^verbatim>\<open>saveFlow\<close> reads \<^verbatim>\<open>nodes\<close> and \<^verbatim>\<open>edges\<close>, calls no state setter and emits one toast on
  each of its three paths. \<^verbatim>\<open>edges.some(p)\<close> is \<open>list_ex p\<close>, \<^verbatim>\<open>nodes.filter(p)\<close> is
  \<open>filter p\<close>.
\<close>

definition nodesWithoutTargets :: "node list \<Rightarrow> edge list \<Rightarrow> node list" where
  "nodesWithoutTargets nds eds =
     filter (\<lambda>node.
        let hasIncomingEdge = list_ex (\<lambda>edge. target edge = node_id node) eds
        in \<not> hasIncomingEdge) nds"

definition saveFlow :: "state \<Rightarrow> state \<times> toast list" where
  "saveFlow st =
     (if length (nodes st) \<le> 1 then (st, [flowSavedToast])
      else if length (nodesWithoutTargets (nodes st) (edges st)) > 1
        then (st, [validationErrorToast])
        else (st, [flowSavedToast]))"

subsection \<open>onConnect\<close>

text \<open>
  \<^verbatim>\<open>addEdge\<close> is a function of the rendering library (\<^verbatim>\<open>@xyflow/react\<close>); its code is not part
  of the repository. The specification words the accept path as "append the proposed edge
  (assigning it a unique id if absent) and return the new edge set". The library does this
  with three provisos, and the model follows the library:
  \<^item> a connection with an empty source or target (\<^verbatim>\<open>!edgeParams.source || !edgeParams.target\<close>)
    is dropped;
  \<^item> a connection that an edge of the list already makes (same source and target, and
    handles that are equal or both falsy) is dropped;
  \<^item> a \<^verbatim>\<open>null\<close> handle is not stored: the key is deleted from the new edge, so the stored edge
    reads \<^verbatim>\<open>undefined\<close> there.
  How the library chooses the id is left open; it is the argument \<open>newId\<close>.
\<close>

definition falsy :: "handle \<Rightarrow> bool" where
  "falsy h \<longleftrightarrow> h = Absent \<or> h = Null \<or> h = Handle ''''"

definition connectionExists :: "edge \<Rightarrow> edge list \<Rightarrow> bool" where
  "connectionExists edge eds =
     list_ex (\<lambda>el. source el = source edge \<and> target el = target edge
        \<and> (sourceHandle el = sourceHandle edge \<or> falsy (sourceHandle el) \<and> falsy (sourceHandle edge))
        \<and> (targetHandle el = targetHandle edge \<or> falsy (targetHandle el) \<and> falsy (targetHandle edge)))
       eds"

definition addEdge :: "string \<Rightarrow> connection \<Rightarrow> edge list \<Rightarrow> edge list" where
  "addEdge newId edgeParams eds =
     (if source edgeParams = '''' \<or> target edgeParams = '''' then eds
      else
        let edge = \<lparr>source = source edgeParams, target = target edgeParams,
                     sourceHandle = sourceHandle edgeParams, targetHandle = targetHandle edgeParams,
                     edge_id = newId\<rparr>
        in if connectionExists edge eds then eds
           else eds @
             [edge\<lparr>sourceHandle := (if sourceHandle edge = Null then Absent else sourceHandle edge),
                    targetHandle := (if targetHandle edge = Null then Absent else targetHandle edge)\<rparr>])"

text \<open>
  \<^verbatim>\<open>edges.find(p)\<close> is \<open>find p\<close>: the first edge satisfying \<open>p\<close>, or \<open>None\<close> for
  \<^verbatim>\<open>undefined\<close>. An edge object is truthy, so \<^verbatim>\<open>if (existingEdge)\<close> is the case \<open>Some\<close>.
  The test \<^verbatim>\<open>edge.sourceHandle === params.sourceHandle\<close> is equality of handles: a stored edge
  without a handle key (\<open>Absent\<close>) is not equal to a proposal with a \<^verbatim>\<open>null\<close> handle (\<open>Null\<close>).
  On the path \<open>Some\<close> the handler emits the error toast and returns before \<^verbatim>\<open>setEdges\<close>; on
  the other it calls \<^verbatim>\<open>setEdges((eds) => addEdge(params, eds))\<close> and emits nothing.
\<close>

definition onConnect :: "string \<Rightarrow> connection \<Rightarrow> state \<Rightarrow> state \<times> toast list" where
  "onConnect newId params st =
     (case find (\<lambda>edge. source edge = source params \<and> sourceHandle edge = sourceHandle params)
             (edges st) of
        Some existingEdge \<Rightarrow> (st, [connectionErrorToast])
      | None \<Rightarrow> (st\<lparr>edges := addEdge newId params (edges st)\<rparr>, []))"

text \<open>A sequence of connection proposals, each with the id its edge would get.\<close>

fun proposeAll :: "(string \<times> connection) list \<Rightarrow> state \<Rightarrow> state" where
  "proposeAll [] st = st"
| "proposeAll ((newId, params) # rest) st = proposeAll rest (fst (onConnect newId params st))"

subsection \<open>updateNodeData\<close>

text \<open>
  \<^verbatim>\<open>nds.map(...)\<close> rebuilds the node list; a node with the given id becomes
  \<^verbatim>\<open>{ ...node, data: { ...node.data, ...newData } }\<close>. The selected node, when it has the id,
  gets the same merge (\<^verbatim>\<open>selectedNode?.id === nodeId\<close> is false when nothing is selected).
\<close>

definition updateNodeData :: "string \<Rightarrow> data \<Rightarrow> state \<Rightarrow> state \<times> toast list" where
  "updateNodeData nodeId newData st =
     (let nds = map (\<lambda>node. if node_id node = nodeId
                              then node\<lparr>node_data := node_data node ++ newData\<rparr>
                              else node) (nodes st);
          sel = (case selectedNode st of
                   None \<Rightarrow> None
                 | Some prev \<Rightarrow>
                     if node_id prev = nodeId
                     then Some (prev\<lparr>node_data := node_data prev ++ newData\<rparr>)
                     else Some prev)
      in (st\<lparr>nodes := nds, selectedNode := sel\<rparr>, []))"

subsection \<open>addNode and node removal\<close>

text \<open>
  The id of a new node is the template string \<^verbatim>\<open>`${nodes.length + 1}-${Date.now()}`\<close>: two
  integers printed in decimal, with a minus sign for a negative clock value. The clock
  value read by \<^verbatim>\<open>Date.now()\<close> (milliseconds since the epoch, an integer) is the argument
  \<open>now\<close>. The handler is rebuilt whenever \<^verbatim>\<open>nodes.length\<close> changes, so the length it reads is
  that of the current node list.
\<close>

definition digit_char :: "nat \<Rightarrow> char" where
  "digit_char d = ''0123456789'' ! d"

fun show_nat :: "nat \<Rightarrow> string" where
  "show_nat n = (if n < 10 then [digit_char n]
                 else show_nat (n div 10) @ [digit_char (n mod 10)])"

declare show_nat.simps [simp del]

definition show_int :: "int \<Rightarrow> string" where
  "show_int i = (if i < 0 then CHR ''-'' # show_nat (nat (- i)) else show_nat (nat i))"

definition addNode :: "int \<Rightarrow> string \<Rightarrow> position \<Rightarrow> state \<Rightarrow> state \<times> toast list" where
  "addNode now type position st =
     (let newNode =
            \<lparr>node_id = show_nat (length (nodes st) + 1) @ ''-'' @ show_int now,
             node_type = type,
             node_position = position,
             node_data =
               [''text'' \<mapsto> (if type = ''textNode'' then ''Click to edit this message...'' else ''''),
                ''label'' \<mapsto> (if type = ''textNode'' then ''Message'' else ''Node'')]\<rparr>
      in (st\<lparr>nodes := nodes st @ [newNode]\<rparr>, []))"

text \<open>
  Modelled from the spec: a node is removed by the rendering library (through
  \<^verbatim>\<open>onNodesChange\<close>), whose code is not among the sources. The specification says a node is
  "destroyed on explicit delete" and defines nothing else for removal: the nodes with the
  given id leave the node list, and nothing else changes.
\<close>

definition removeNode :: "string \<Rightarrow> state \<Rightarrow> state \<times> toast list" where
  "removeNode nodeId st = (st\<lparr>nodes := filter (\<lambda>node. node_id node \<noteq> nodeId) (nodes st)\<rparr>, [])"

datatype nodeOp = AddNode int string position | RemoveNode string

fun applyNodeOp :: "nodeOp \<Rightarrow> state \<Rightarrow> state" where
  "applyNodeOp (AddNode now type position) st = fst (addNode now type position st)"
| "applyNodeOp (RemoveNode nodeId) st = fst (removeNode nodeId st)"

fun runNodeOps :: "nodeOp list \<Rightarrow> state \<Rightarrow> state" where
  "runNodeOps [] st = st"
| "runNodeOps (op # ops) st = runNodeOps ops (applyNodeOp op st)"

fun addTimes :: "nodeOp list \<Rightarrow> int list" where
  "addTimes [] = []"
| "addTimes (AddNode now type position # ops) = now # addTimes ops"
| "addTimes (RemoveNode nodeId # ops) = addTimes ops"

fun isAdd :: "nodeOp \<Rightarrow> bool" where
  "isAdd (AddNode now type position) = True"
| "isAdd (RemoveNode nodeId) = False"

subsection \<open>Example states\<close>

text \<open>
  The initial state after one and after two calls of \<open>addNode\<close>, and connections between
  their nodes. The \<^verbatim>\<open><Handle>\<close> elements of \<^verbatim>\<open>TextNode\<close> carry no \<^verbatim>\<open>id\<close>, so a connection drawn
  between two text nodes has \<^verbatim>\<open>null\<close> handles: \<open>connect12\<close>, \<open>connect13\<close>, \<open>connect21\<close>,
  \<open>connect22\<close>. The connections \<open>connectA12\<close> and \<open>connectA13\<close> leave a source handle with the
  id \<^verbatim>\<open>A\<close>, as in scenario D of the specification.
\<close>

definition twoNodes :: state where
  "twoNodes = fst (addNode 1700000000000 ''textNode'' \<lparr>pos_x = 220, pos_y = 240\<rparr> initialState)"

definition threeNodes :: state where
  "threeNodes = fst (addNode 1700000004200 ''textNode'' \<lparr>pos_x = 260, pos_y = 280\<rparr> twoNodes)"

definition connect12 :: connection where
  "connect12 = \<lparr>source = ''1'', target = ''2-1700000000000'', sourceHandle = Null, targetHandle = Null\<rparr>"

definition connect13 :: connection where
  "connect13 = \<lparr>source = ''1'', target = ''3-1700000004200'', sourceHandle = Null, targetHandle = Null\<rparr>"

definition connect21 :: connection where
  "connect21 = \<lparr>source = ''2-1700000000000'', target = ''1'', sourceHandle = Null, targetHandle = Null\<rparr>"

definition connect22 :: connection where
  "connect22 = \<lparr>source = ''2-1700000000000'', target = ''2-1700000000000'',
                sourceHandle = Null, targetHandle = Null\<rparr>"

definition connectA12 :: connection where
  "connectA12 = \<lparr>source = ''1'', target = ''2-1700000000000'',
                 sourceHandle = Handle ''A'', targetHandle = Null\<rparr>"

definition connectA13 :: connection where
  "connectA13 = \<lparr>source = ''1'', target = ''3-1700000004200'',
                 sourceHandle = Handle ''A'', targetHandle = Null\<rparr>"

section \<open>Evaluating the example states\<close>

lemmas show_simps = show_int_def show_nat.simps digit_char_def

lemma nodes_twoNodes:
  "nodes twoNodes =
    [\<lparr>node_id = ''1'', node_type = ''textNode'',
      node_position = \<lparr>pos_x = 250, pos_y = 200\<rparr>,
      node_data = [''text'' \<mapsto> ''Welcome! Start building your chatbot flow.'',
                   ''label'' \<mapsto> ''Welcome Message'']\<rparr>,
     \<lparr>node_id = ''2-1700000000000'', node_type = ''textNode'',
      node_position = \<lparr>pos_x = 220, pos_y = 240\<rparr>,
      node_data = [''text'' \<mapsto> ''Click to edit this message...'',
                   ''label'' \<mapsto> ''Message'']\<rparr>]"
  by (simp add: twoNodes_def addNode_def initialState_def initialNodes_def show_simps)

lemma ids_threeNodes:
  "map node_id (nodes threeNodes) = [''1'', ''2-1700000000000'', ''3-1700000004200'']"
  by (simp add: threeNodes_def addNode_def nodes_twoNodes show_simps)

lemma edges_twoNodes: "edges twoNodes = []"
  by (simp add: twoNodes_def addNode_def initialState_def initialEdges_def)

lemma edges_threeNodes: "edges threeNodes = []"
  by (simp add: threeNodes_def addNode_def edges_twoNodes)

lemma length_conv_ids: "length (nodes st) = length (map node_id (nodes st))"
  by simp

lemma saveFlow_threeNodes: "snd (saveFlow threeNodes) = [validationErrorToast]"
  by (simp add: saveFlow_def nodesWithoutTargets_def length_conv_ids[of threeNodes]
        ids_threeNodes edges_threeNodes)

section \<open>Save validation\<close>

lemma toasts_differ: "flowSavedToast \<noteq> validationErrorToast"
  by (simp add: flowSavedToast_def validationErrorToast_def)

lemma length_nodesWithoutTargets:
  "length (nodesWithoutTargets nds eds) =
     card {i. i < length nds \<and> node_id (nds ! i) \<notin> target ` set eds}"
proof -
  have "list_ex (\<lambda>edge. target edge = a) eds \<longleftrightarrow> a \<in> target ` set eds" for a
    by (auto simp: list_ex_iff)
  then show ?thesis
    by (simp add: nodesWithoutTargets_def length_filter_conv_card)
qed

text \<open>
  Claim C1. Saving is accepted (the \<^verbatim>\<open>Flow Saved\<close> toast) if and only if there is at most one
  node, or at most one node has no incoming edge (no edge whose \<^verbatim>\<open>target\<close> is the node's id);
  it is rejected (the \<^verbatim>\<open>Validation Error\<close> toast) if and only if there is more than one node
  and strictly more than one of them has no incoming edge. Nodes are counted by their place
  in the list. The outcome depends on the edges only through the set of their targets.
\<close>

theorem saveFlow_accepts_iff:
  "(snd (saveFlow st) = [flowSavedToast] \<longleftrightarrow>
      length (nodes st) \<le> 1 \<or>
      card {i. i < length (nodes st) \<and> node_id (nodes st ! i) \<notin> target ` set (edges st)} \<le> 1)
   \<and> (snd (saveFlow st) = [validationErrorToast] \<longleftrightarrow>
      1 < length (nodes st) \<and>
      1 < card {i. i < length (nodes st) \<and> node_id (nodes st ! i) \<notin> target ` set (edges st)})
   \<and> (target ` set es = target ` set (edges st) \<longrightarrow>
      snd (saveFlow (st\<lparr>edges := es\<rparr>)) = snd (saveFlow st))"
proof -
  let ?c = "card {i. i < length (nodes st) \<and> node_id (nodes st ! i) \<notin> target ` set (edges st)}"
  have len: "length (nodesWithoutTargets (nodes st) (edges st)) = ?c"
    by (rule length_nodesWithoutTargets)
  have acc: "snd (saveFlow st) = [flowSavedToast] \<longleftrightarrow> length (nodes st) \<le> 1 \<or> ?c \<le> 1"
    using toasts_differ by (auto simp: saveFlow_def len)
  have rej: "snd (saveFlow st) = [validationErrorToast] \<longleftrightarrow> 1 < length (nodes st) \<and> 1 < ?c"
    using toasts_differ by (auto simp: saveFlow_def len)
  have dep: "snd (saveFlow (st\<lparr>edges := es\<rparr>)) = snd (saveFlow st)"
    if "target ` set es = target ` set (edges st)"
    using that by (simp add: saveFlow_def length_nodesWithoutTargets)
  from acc rej dep show ?thesis by blast
qed

theorem saveFlow_accepts_iff_witness:
  "target ` set (addEdge ''e2'' connect22 []) = target ` set (edges (twoNodes\<lparr>edges := addEdge ''e1'' connect12 []\<rparr>))
   \<and> snd (saveFlow (twoNodes\<lparr>edges := addEdge ''e2'' connect22 []\<rparr>)) = [flowSavedToast]
   \<and> snd (saveFlow (twoNodes\<lparr>edges := addEdge ''e1'' connect12 []\<rparr>)) = [flowSavedToast]
   \<and> snd (saveFlow threeNodes) = [validationErrorToast]
   \<and> 1 < length (nodes threeNodes)
   \<and> 1 < card {i. i < length (nodes threeNodes) \<and> node_id (nodes threeNodes ! i) \<notin> target ` set (edges threeNodes)}"
proof -
  let ?st = "twoNodes\<lparr>edges := addEdge ''e1'' connect12 []\<rparr>"
  let ?es = "addEdge ''e2'' connect22 []"
  have t: "target ` set ?es = target ` set (edges ?st)"
    by (simp add: addEdge_def connectionExists_def connect12_def connect22_def)
  have a: "snd (saveFlow ?st) = [flowSavedToast]"
    by (simp add: saveFlow_def nodesWithoutTargets_def nodes_twoNodes addEdge_def
          connectionExists_def connect12_def)
  have r: "snd (saveFlow threeNodes) = [validationErrorToast]"
    by (rule saveFlow_threeNodes)
  from t a r saveFlow_accepts_iff[of ?st ?es] saveFlow_accepts_iff[of threeNodes]
  show ?thesis by simp
qed

text \<open>
  Claim C10. Saving does not ask for an entry node: when there is more than one node and
  every node is the target of some edge (a cycle, for one), \<open>saveFlow\<close> accepts.
\<close>

theorem saveFlow_no_entry_node:
  assumes "1 < length (nodes st)"
    and "\<forall>n\<in>set (nodes st). \<exists>e\<in>set (edges st). target e = node_id n"
  shows "snd (saveFlow st) = [flowSavedToast]"
proof -
  from assms(2) have "nodesWithoutTargets (nodes st) (edges st) = []"
    by (auto simp: nodesWithoutTargets_def list_ex_iff filter_empty_conv)
  then show ?thesis by (simp add: saveFlow_def)
qed

text \<open>The two nodes of \<open>twoNodes\<close> joined in a cycle: no node without an incoming edge.\<close>

theorem saveFlow_no_entry_node_witness:
  "1 < length (nodes (twoNodes\<lparr>edges := addEdge ''e2'' connect21 (addEdge ''e1'' connect12 [])\<rparr>))
   \<and> list_all (\<lambda>n. list_ex (\<lambda>e. target e = node_id n)
         (edges (twoNodes\<lparr>edges := addEdge ''e2'' connect21 (addEdge ''e1'' connect12 [])\<rparr>)))
       (nodes (twoNodes\<lparr>edges := addEdge ''e2'' connect21 (addEdge ''e1'' connect12 [])\<rparr>))
   \<and> snd (saveFlow (twoNodes\<lparr>edges := addEdge ''e2'' connect21 (addEdge ''e1'' connect12 [])\<rparr>))
       = [flowSavedToast]"
proof -
  let ?st = "twoNodes\<lparr>edges := addEdge ''e2'' connect21 (addEdge ''e1'' connect12 [])\<rparr>"
  have a: "1 < length (nodes ?st)"
    by (simp add: nodes_twoNodes)
  have b: "list_all (\<lambda>n. list_ex (\<lambda>e. target e = node_id n) (edges ?st)) (nodes ?st)"
    by (simp add: nodes_twoNodes addEdge_def connectionExists_def connect12_def connect21_def)
  then have b': "\<forall>n\<in>set (nodes ?st). \<exists>e\<in>set (edges ?st). target e = node_id n"
    by (simp only: list_all_iff list_ex_iff)
  from a b saveFlow_no_entry_node[OF a b'] show ?thesis by simp
qed

text \<open>
  Claim C6. \<open>saveFlow\<close> leaves the state as it found it (node list, edge list and selection),
  and a second save of the same state gives the same toasts as the first.
\<close>

theorem saveFlow_pure:
  "fst (saveFlow st) = st \<and> snd (saveFlow (fst (saveFlow st))) = snd (saveFlow st)"
  by (simp add: saveFlow_def)

theorem saveFlow_pure_witness:
  "nodes (fst (saveFlow threeNodes)) = nodes threeNodes
   \<and> edges (fst (saveFlow threeNodes)) = edges threeNodes
   \<and> snd (saveFlow threeNodes) = [validationErrorToast]
   \<and> snd (saveFlow (fst (saveFlow threeNodes))) = [validationErrorToast]"
  using saveFlow_pure[of threeNodes] saveFlow_threeNodes by simp

section \<open>Connection validation\<close>

lemma onConnect_reject:
  "\<exists>e\<in>set (edges st). source e = source params \<and> sourceHandle e = sourceHandle params
   \<Longrightarrow> onConnect newId params st = (st, [connectionErrorToast])"
  by (auto simp: onConnect_def find_None_iff split: option.splits)

lemma onConnect_accept:
  "\<not> (\<exists>e\<in>set (edges st). source e = source params \<and> sourceHandle e = sourceHandle params)
   \<Longrightarrow> onConnect newId params st = (st\<lparr>edges := addEdge newId params (edges st)\<rparr>, [])"
  by (auto simp: onConnect_def find_None_iff split: option.splits)

lemmas connect_simps =
  connect12_def connect13_def connect21_def connect22_def connectA12_def connectA13_def
  addEdge_def connectionExists_def falsy_def

text \<open>
  Claim C2 does not hold of the code. Node 1 of \<open>threeNodes\<close> is connected to node 2, with
  the \<^verbatim>\<open>null\<close> handles the text nodes send; the edge is stored without handle keys. A second
  connection from the same node and the same handle, to node 3, then finds no edge whose
  handle is \<^verbatim>\<open>===\<close> to \<^verbatim>\<open>null\<close>: it is not rejected, and a second edge leaves the handle. A
  repetition of the first connection is not rejected either, and is not appended.
\<close>

theorem onConnect_misses_stored_edge:
  "source connect13 = source connect12
   \<and> sourceHandle connect13 = sourceHandle connect12
   \<and> onConnect ''e1'' connect12 threeNodes =
       (threeNodes\<lparr>edges :=
          [\<lparr>source = ''1'', target = ''2-1700000000000'',
            sourceHandle = Absent, targetHandle = Absent, edge_id = ''e1''\<rparr>]\<rparr>, [])
   \<and> onConnect ''e2'' connect13 (fst (onConnect ''e1'' connect12 threeNodes)) =
       (threeNodes\<lparr>edges :=
          [\<lparr>source = ''1'', target = ''2-1700000000000'',
            sourceHandle = Absent, targetHandle = Absent, edge_id = ''e1''\<rparr>,
           \<lparr>source = ''1'', target = ''3-1700000004200'',
            sourceHandle = Absent, targetHandle = Absent, edge_id = ''e2''\<rparr>]\<rparr>, [])
   \<and> onConnect ''e3'' connect12 (fst (onConnect ''e1'' connect12 threeNodes)) =
       (threeNodes\<lparr>edges :=
          [\<lparr>source = ''1'', target = ''2-1700000000000'',
            sourceHandle = Absent, targetHandle = Absent, edge_id = ''e1''\<rparr>]\<rparr>, [])"
  by (simp add: onConnect_def edges_threeNodes connect_simps)

text \<open>
  Claim C4. When \<open>onConnect\<close> rejects a connection, the state after the call is the state
  before it: the edge list, and with it the node list and the selection, are untouched.
\<close>

theorem onConnect_rejection_leaves_state:
  "snd (onConnect newId params st) = [connectionErrorToast] \<Longrightarrow> fst (onConnect newId params st) = st"
  by (cases "\<exists>e\<in>set (edges st). source e = source params \<and> sourceHandle e = sourceHandle params")
    (simp_all add: onConnect_reject onConnect_accept)

text \<open>
  Handle A of node 1 holds an edge to node 2; a connection from handle A to node 3 is
  rejected and the edge list stays.
\<close>

theorem onConnect_rejection_leaves_state_witness:
  "snd (onConnect ''e2'' connectA13 (threeNodes\<lparr>edges := addEdge ''e1'' connectA12 []\<rparr>))
     = [connectionErrorToast]
   \<and> fst (onConnect ''e2'' connectA13 (threeNodes\<lparr>edges := addEdge ''e1'' connectA12 []\<rparr>)) =
       threeNodes\<lparr>edges := addEdge ''e1'' connectA12 []\<rparr>
   \<and> map edge_id (edges (fst (onConnect ''e2'' connectA13
         (threeNodes\<lparr>edges := addEdge ''e1'' connectA12 []\<rparr>)))) = [''e1'']"
proof -
  let ?st = "threeNodes\<lparr>edges := addEdge ''e1'' connectA12 []\<rparr>"
  have r: "snd (onConnect ''e2'' connectA13 ?st) = [connectionErrorToast]"
    by (simp add: onConnect_def connect_simps)
  from r onConnect_rejection_leaves_state[OF r] show ?thesis
    by (simp add: connect_simps)
qed

text \<open>
  Claim C5. A self-loop (source node equal to target node) passes the validator whenever no
  existing edge has its source node and source handle: the handler takes the accept path,
  hands the connection to \<open>addEdge\<close>, stores the result and shows no error.
\<close>

theorem onConnect_accepts_self_loop:
  "source params = target params \<Longrightarrow>
   \<not> (\<exists>e\<in>set (edges st). source e = source params \<and> sourceHandle e = sourceHandle params) \<Longrightarrow>
   onConnect newId params st = (st\<lparr>edges := addEdge newId params (edges st)\<rparr>, [])"
  by (rule onConnect_accept)

theorem onConnect_accepts_self_loop_witness:
  "source connect22 = target connect22
   \<and> \<not> (\<exists>e\<in>set (edges twoNodes). source e = source connect22 \<and> sourceHandle e = sourceHandle connect22)
   \<and> onConnect ''e1'' connect22 twoNodes =
       (twoNodes\<lparr>edges := [\<lparr>source = ''2-1700000000000'', target = ''2-1700000000000'',
                            sourceHandle = Absent, targetHandle = Absent, edge_id = ''e1''\<rparr>]\<rparr>, [])"
proof -
  have a: "source connect22 = target connect22"
    by (simp add: connect22_def)
  have b: "\<not> (\<exists>e\<in>set (edges twoNodes). source e = source connect22 \<and> sourceHandle e = sourceHandle connect22)"
    by (simp add: edges_twoNodes)
  from a b onConnect_accepts_self_loop[OF a b, of "''e1''"] show ?thesis
    by (simp add: edges_twoNodes connect_simps)
qed

subsection \<open>Fan-out of a source handle\<close>

text \<open>
  Claim C3 does not hold of the code. From the empty edge list of \<open>threeNodes\<close>, node 1 is
  connected to node 2 and then to node 3, both times from its one source handle (\<^verbatim>\<open>null\<close> in
  the proposals). Both proposals are accepted, and the edge list holds two edges with the
  same source node and the same source handle.
\<close>

theorem fanout_two_edges_from_one_handle:
  "edges threeNodes = initialEdges
   \<and> map (\<lambda>p. (source (snd p), sourceHandle (snd p))) [(''e1'', connect12), (''e2'', connect13)]
       = [(''1'', Null), (''1'', Null)]
   \<and> map (\<lambda>e. (source e, sourceHandle e))
        (edges (proposeAll [(''e1'', connect12), (''e2'', connect13)] threeNodes))
       = [(''1'', Absent), (''1'', Absent)]
   \<and> map edge_id (edges (proposeAll [(''e1'', connect12), (''e2'', connect13)] threeNodes))
       = [''e1'', ''e2'']
   \<and> \<not> distinct (map (\<lambda>e. (source e, sourceHandle e))
        (edges (proposeAll [(''e1'', connect12), (''e2'', connect13)] threeNodes)))"
  by (simp add: onConnect_def edges_threeNodes initialEdges_def connect_simps)

section \<open>Notifications\<close>

text \<open>
  An accepted connection shows no toast: \<open>onConnect\<close> calls \<^verbatim>\<open>toast\<close> on its rejection path
  only. So not every call of the handler emits a notification.
\<close>

theorem accepted_connection_no_toast:
  "snd (onConnect ''e1'' connect12 twoNodes) = []
   \<and> length (snd (onConnect ''e1'' connect12 twoNodes)) \<noteq> 1"
  by (simp add: onConnect_def edges_twoNodes)

text \<open>
  Claim C9, amended. Every call of \<open>saveFlow\<close> emits exactly one toast: the success toast
  \<^verbatim>\<open>Flow Saved\<close> (no variant) or the failure toast \<^verbatim>\<open>Validation Error\<close> (variant
  \<^verbatim>\<open>destructive\<close>). A call of \<open>onConnect\<close> that rejects emits exactly one toast, the failure
  toast \<^verbatim>\<open>Connection Error\<close> (variant \<^verbatim>\<open>destructive\<close>); a call that accepts emits none.
\<close>

theorem toasts_per_call:
  "length (snd (saveFlow st)) = 1
   \<and> (snd (saveFlow st) = [flowSavedToast] \<or> snd (saveFlow st) = [validationErrorToast])
   \<and> variant flowSavedToast = None
   \<and> variant validationErrorToast = Some ''destructive''
   \<and> variant connectionErrorToast = Some ''destructive''
   \<and> snd (onConnect newId params st) =
       (if \<exists>e\<in>set (edges st). source e = source params \<and> sourceHandle e = sourceHandle params
        then [connectionErrorToast] else [])"
proof -
  have "snd (onConnect newId params st) =
       (if \<exists>e\<in>set (edges st). source e = source params \<and> sourceHandle e = sourceHandle params
        then [connectionErrorToast] else [])"
    by (cases "\<exists>e\<in>set (edges st). source e = source params \<and> sourceHandle e = sourceHandle params")
      (simp_all add: onConnect_reject onConnect_accept)
  then show ?thesis
    by (simp add: saveFlow_def flowSavedToast_def validationErrorToast_def connectionErrorToast_def)
qed

theorem toasts_per_call_witness:
  "snd (saveFlow twoNodes) = [validationErrorToast]
   \<and> snd (saveFlow initialState) = [flowSavedToast]
   \<and> snd (onConnect ''e1'' connect12 twoNodes) = []
   \<and> snd (onConnect ''e2'' connectA13 (threeNodes\<lparr>edges := addEdge ''e1'' connectA12 []\<rparr>))
       = [connectionErrorToast]"
proof -
  have "snd (saveFlow twoNodes) = [validationErrorToast]"
    by (simp add: saveFlow_def nodesWithoutTargets_def nodes_twoNodes edges_twoNodes)
  moreover have "snd (saveFlow initialState) = [flowSavedToast]"
    by (simp add: saveFlow_def initialState_def initialNodes_def)
  ultimately show ?thesis
    using toasts_per_call[of twoNodes "''e1''" connect12]
      toasts_per_call[of "threeNodes\<lparr>edges := addEdge ''e1'' connectA12 []\<rparr>" "''e2''" connectA13]
    by (simp add: edges_twoNodes addEdge_def connectionExists_def connect12_def
          connectA12_def connectA13_def)
qed

section \<open>Updating a node's data\<close>

lemma nodes_updateNodeData:
  "nodes (fst (updateNodeData nodeId newData st)) =
     map (\<lambda>node. if node_id node = nodeId
                  then node\<lparr>node_data := node_data node ++ newData\<rparr> else node) (nodes st)"
  by (simp add: updateNodeData_def)

text \<open>
  Claim C7. \<open>updateNodeData nodeId newData\<close> keeps the length and order of the node list. At
  a place holding a node with id \<open>nodeId\<close>, the id, type and position stay and the data
  becomes the merge of the old data and \<open>newData\<close>: each key of \<open>newData\<close> gets the new value,
  every other key keeps its old one. Every other place holds the node it held. When no node
  has the id, the node list is unchanged. The edges are untouched and no toast is shown.
\<close>

theorem updateNodeData_frame:
  "length (nodes (fst (updateNodeData nodeId newData st))) = length (nodes st)
   \<and> (\<forall>i. i < length (nodes st) \<and> node_id (nodes st ! i) = nodeId \<longrightarrow>
         node_id (nodes (fst (updateNodeData nodeId newData st)) ! i) = node_id (nodes st ! i)
       \<and> node_type (nodes (fst (updateNodeData nodeId newData st)) ! i) = node_type (nodes st ! i)
       \<and> node_position (nodes (fst (updateNodeData nodeId newData st)) ! i)
           = node_position (nodes st ! i)
       \<and> (\<forall>k. node_data (nodes (fst (updateNodeData nodeId newData st)) ! i) k =
                (case newData k of Some v \<Rightarrow> Some v | None \<Rightarrow> node_data (nodes st ! i) k)))
   \<and> (\<forall>i. i < length (nodes st) \<and> node_id (nodes st ! i) \<noteq> nodeId \<longrightarrow>
         nodes (fst (updateNodeData nodeId newData st)) ! i = nodes st ! i)
   \<and> (nodeId \<notin> node_id ` set (nodes st) \<longrightarrow>
         nodes (fst (updateNodeData nodeId newData st)) = nodes st)
   \<and> edges (fst (updateNodeData nodeId newData st)) = edges st
   \<and> snd (updateNodeData nodeId newData st) = []"
proof -
  let ?f = "\<lambda>node. if node_id node = nodeId
                  then node\<lparr>node_data := node_data node ++ newData\<rparr> else node"
  have n: "nodes (fst (updateNodeData nodeId newData st)) = map ?f (nodes st)"
    by (rule nodes_updateNodeData)
  have len: "length (nodes (fst (updateNodeData nodeId newData st))) = length (nodes st)"
    by (simp add: n)
  have hit: "node_id (nodes (fst (updateNodeData nodeId newData st)) ! i) = node_id (nodes st ! i)
       \<and> node_type (nodes (fst (updateNodeData nodeId newData st)) ! i) = node_type (nodes st ! i)
       \<and> node_position (nodes (fst (updateNodeData nodeId newData st)) ! i)
           = node_position (nodes st ! i)
       \<and> (\<forall>k. node_data (nodes (fst (updateNodeData nodeId newData st)) ! i) k =
                (case newData k of Some v \<Rightarrow> Some v | None \<Rightarrow> node_data (nodes st ! i) k))"
    if "i < length (nodes st)" "node_id (nodes st ! i) = nodeId" for i
    using that by (simp add: n map_add_def split: option.split)
  have miss: "nodes (fst (updateNodeData nodeId newData st)) ! i = nodes st ! i"
    if "i < length (nodes st)" "node_id (nodes st ! i) \<noteq> nodeId" for i
    using that by (simp add: n)
  have absent: "nodes (fst (updateNodeData nodeId newData st)) = nodes st"
    if "nodeId \<notin> node_id ` set (nodes st)"
  proof -
    from that have "map ?f (nodes st) = map (\<lambda>node. node) (nodes st)"
      by (intro map_cong) auto
    then show ?thesis by (simp add: n)
  qed
  have rest: "edges (fst (updateNodeData nodeId newData st)) = edges st"
    "snd (updateNodeData nodeId newData st) = []"
    by (simp_all add: updateNodeData_def)
  from len hit miss absent rest show ?thesis by blast
qed

text \<open>
  The text of node 1 of \<open>twoNodes\<close> is replaced: its label and position stay, node 2 stays;
  an update for an id no node has changes nothing.
\<close>

theorem updateNodeData_frame_witness:
  "node_id (nodes twoNodes ! 0) = ''1''
   \<and> node_data (nodes (fst (updateNodeData ''1'' [''text'' \<mapsto> ''Hello''] twoNodes)) ! 0) ''text''
       = Some ''Hello''
   \<and> node_data (nodes (fst (updateNodeData ''1'' [''text'' \<mapsto> ''Hello''] twoNodes)) ! 0) ''label''
       = Some ''Welcome Message''
   \<and> node_position (nodes (fst (updateNodeData ''1'' [''text'' \<mapsto> ''Hello''] twoNodes)) ! 0)
       = \<lparr>pos_x = 250, pos_y = 200\<rparr>
   \<and> node_id (nodes twoNodes ! 1) \<noteq> ''1''
   \<and> nodes (fst (updateNodeData ''1'' [''text'' \<mapsto> ''Hello''] twoNodes)) ! 1 = nodes twoNodes ! 1
   \<and> ''7'' \<notin> node_id ` set (nodes twoNodes)
   \<and> nodes (fst (updateNodeData ''7'' [''text'' \<mapsto> ''Hello''] twoNodes)) = nodes twoNodes"
proof -
  have a: "(0::nat) < length (nodes twoNodes) \<and> node_id (nodes twoNodes ! 0) = ''1''"
    by (simp add: nodes_twoNodes)
  have b: "(1::nat) < length (nodes twoNodes) \<and> node_id (nodes twoNodes ! 1) \<noteq> ''1''"
    by (simp add: nodes_twoNodes)
  have c: "''7'' \<notin> node_id ` set (nodes twoNodes)"
    by (simp add: nodes_twoNodes)
  note t = updateNodeData_frame[of "''1''" "[''text'' \<mapsto> ''Hello'']" twoNodes]
  note u = updateNodeData_frame[of "''7''" "[''text'' \<mapsto> ''Hello'']" twoNodes]
  from t a have hit:
    "node_position (nodes (fst (updateNodeData ''1'' [''text'' \<mapsto> ''Hello''] twoNodes)) ! 0)
        = node_position (nodes twoNodes ! 0)"
    and dat: "\<And>k. node_data (nodes (fst (updateNodeData ''1'' [''text'' \<mapsto> ''Hello''] twoNodes)) ! 0) k =
        (case [''text'' \<mapsto> ''Hello''] k of Some v \<Rightarrow> Some v | None \<Rightarrow> node_data (nodes twoNodes ! 0) k)"
    by blast+
  from t b have miss:
    "nodes (fst (updateNodeData ''1'' [''text'' \<mapsto> ''Hello''] twoNodes)) ! 1 = nodes twoNodes ! 1"
    by blast
  from u c have absent:
    "nodes (fst (updateNodeData ''7'' [''text'' \<mapsto> ''Hello''] twoNodes)) = nodes twoNodes"
    by blast
  have "node_data (nodes twoNodes ! 0) ''label'' = Some ''Welcome Message''"
    "node_position (nodes twoNodes ! 0) = \<lparr>pos_x = 250, pos_y = 200\<rparr>"
    by (simp_all add: nodes_twoNodes)
  with a b c hit dat[of "''text''"] dat[of "''label''"] miss absent show ?thesis
    by simp
qed

section \<open>Node ids\<close>

subsection \<open>Printing integers in decimal is injective\<close>

lemma digit_char_inj: "a < 10 \<Longrightarrow> b < 10 \<Longrightarrow> digit_char a = digit_char b \<longleftrightarrow> a = b"
  unfolding digit_char_def
  by (rule nth_eq_iff_index_eq) simp_all

lemma digit_char_not_minus: "d < 10 \<Longrightarrow> digit_char d \<noteq> CHR ''-''"
proof -
  assume "d < 10"
  then have "digit_char d \<in> set ''0123456789''"
    unfolding digit_char_def by (intro nth_mem) simp
  then show ?thesis by auto
qed

lemma show_nat_nonempty: "show_nat n \<noteq> []"
  by (subst show_nat.simps) simp

lemma show_nat_no_minus: "CHR ''-'' \<notin> set (show_nat n)"
proof (induction n rule: show_nat.induct)
  case (1 n)
  show ?case
  proof (cases "n < 10")
    case True
    then show ?thesis
      using digit_char_not_minus[of n] by (subst show_nat.simps) auto
  next
    case False
    have "n mod 10 < 10" by simp
    then have "digit_char (n mod 10) \<noteq> CHR ''-''" by (rule digit_char_not_minus)
    with False 1 show ?thesis
      by (subst show_nat.simps) auto
  qed
qed

lemma show_nat_inj: "show_nat n = show_nat m \<Longrightarrow> n = m"
proof (induction n arbitrary: m rule: show_nat.induct)
  case (1 n)
  show ?case
  proof (cases "n < 10")
    case n: True
    show ?thesis
    proof (cases "m < 10")
      case True
      with n 1(2) show ?thesis
        by (simp add: show_nat.simps[of n] show_nat.simps[of m] digit_char_inj)
    next
      case False
      with n 1(2) show ?thesis
        using show_nat_nonempty[of "m div 10"]
        by (simp add: show_nat.simps[of n] show_nat.simps[of m])
    qed
  next
    case n: False
    show ?thesis
    proof (cases "m < 10")
      case True
      with n 1(2) show ?thesis
        using show_nat_nonempty[of "n div 10"]
        by (simp add: show_nat.simps[of n] show_nat.simps[of m])
    next
      case False
      with n 1(2) have eq: "show_nat (n div 10) = show_nat (m div 10)"
        and d: "digit_char (n mod 10) = digit_char (m mod 10)"
        by (simp_all add: show_nat.simps[of n] show_nat.simps[of m])
      from 1(1)[OF n eq] have "n div 10 = m div 10" .
      moreover from d have "n mod 10 = m mod 10"
        by (simp add: digit_char_inj)
      ultimately show ?thesis
        by (metis div_mult_mod_eq)
    qed
  qed
qed

lemma show_int_inj: "show_int i = show_int j \<Longrightarrow> i = j"
proof -
  assume eq: "show_int i = show_int j"
  have hd_pos: "hd (show_nat n) \<noteq> CHR ''-''" for n
    using show_nat_no_minus[of n] show_nat_nonempty[of n] by (cases "show_nat n") auto
  show ?thesis
  proof (cases "i < 0"; cases "j < 0")
    assume "i < 0" "j < 0"
    with eq have "nat (- i) = nat (- j)"
      by (auto simp: show_int_def dest: show_nat_inj)
    with \<open>i < 0\<close> \<open>j < 0\<close> show ?thesis by simp
  next
    assume "i < 0" "\<not> j < 0"
    with eq have "show_nat (nat j) = CHR ''-'' # show_nat (nat (- i))"
      by (simp add: show_int_def)
    then have "hd (show_nat (nat j)) = CHR ''-''" by simp
    with hd_pos[of "nat j"] show ?thesis by blast
  next
    assume "\<not> i < 0" "j < 0"
    with eq have "show_nat (nat i) = CHR ''-'' # show_nat (nat (- j))"
      by (simp add: show_int_def)
    then have "hd (show_nat (nat i)) = CHR ''-''" by simp
    with hd_pos[of "nat i"] show ?thesis by blast
  next
    assume "\<not> i < 0" "\<not> j < 0"
    with eq have "nat i = nat j"
      by (auto simp: show_int_def dest: show_nat_inj)
    with \<open>\<not> i < 0\<close> \<open>\<not> j < 0\<close> show ?thesis by simp
  qed
qed

text \<open>The id of a new node determines the length and the clock value it was built from.\<close>

lemma new_id_inj:
  assumes "show_nat k @ ''-'' @ show_int t = show_nat k' @ ''-'' @ show_int t'"
  shows "k = k' \<and> t = t'"
proof -
  let ?P = "\<lambda>c. c \<noteq> CHR ''-''"
  have tw: "takeWhile ?P (show_nat n @ CHR ''-'' # r) = show_nat n" for n r
    using show_nat_no_minus[of n] by (subst takeWhile_append2) auto
  have dw: "dropWhile ?P (show_nat n @ CHR ''-'' # r) = CHR ''-'' # r" for n r
    using show_nat_no_minus[of n] by (subst dropWhile_append2) auto
  from assms have "takeWhile ?P (show_nat k @ ''-'' @ show_int t)
        = takeWhile ?P (show_nat k' @ ''-'' @ show_int t')"
    and "dropWhile ?P (show_nat k @ ''-'' @ show_int t)
        = dropWhile ?P (show_nat k' @ ''-'' @ show_int t')"
    by simp_all
  then have "show_nat k = show_nat k'" and "show_int t = show_int t'"
    by (simp_all add: tw dw)
  then show ?thesis
    by (auto dest: show_nat_inj show_int_inj)
qed

lemma new_id_not_1: "show_nat k @ ''-'' @ show_int t \<noteq> ''1''"
proof
  assume "show_nat k @ ''-'' @ show_int t = ''1''"
  then have "set (show_nat k @ ''-'' @ show_int t) = set ''1''" by simp
  then show False by auto
qed

subsection \<open>Reachable node lists\<close>

lemma nodes_addNode:
  "map node_id (nodes (fst (addNode now ty pos st))) =
     map node_id (nodes st) @ [show_nat (length (nodes st) + 1) @ ''-'' @ show_int now]"
  by (simp add: addNode_def)

lemma nodes_removeNode:
  "nodes (fst (removeNode nodeId st)) = filter (\<lambda>node. node_id node \<noteq> nodeId) (nodes st)"
  by (simp add: removeNode_def)

lemma runNodeOps_distinct_times:
  assumes "distinct (map node_id (nodes st))"
    and "\<forall>n\<in>set (nodes st). node_id n = ''1'' \<or>
           (\<exists>k t. t \<in> T \<and> node_id n = show_nat k @ ''-'' @ show_int t)"
    and "distinct (addTimes ops)"
    and "set (addTimes ops) \<inter> T = {}"
  shows "distinct (map node_id (nodes (runNodeOps ops st)))"
  using assms
proof (induction ops arbitrary: st T)
  case Nil
  then show ?case by simp
next
  case (Cons op ops)
  show ?case
  proof (cases op)
    case (AddNode now ty pos)
    let ?st = "fst (addNode now ty pos st)"
    let ?new = "show_nat (length (nodes st) + 1) @ ''-'' @ show_int now"
    from Cons.prems(3,4) AddNode have fresh: "now \<notin> T" "now \<notin> set (addTimes ops)"
      and rest: "distinct (addTimes ops)" "set (addTimes ops) \<inter> insert now T = {}"
      by auto
    have "?new \<notin> node_id ` set (nodes st)"
    proof
      assume "?new \<in> node_id ` set (nodes st)"
      then obtain n where n: "n \<in> set (nodes st)" "node_id n = ?new" by auto
      with Cons.prems(2) new_id_not_1 obtain k t
        where "t \<in> T" "?new = show_nat k @ ''-'' @ show_int t"
        by metis
      with new_id_inj fresh(1) show False by blast
    qed
    with Cons.prems(1) have d: "distinct (map node_id (nodes ?st))"
      by (simp add: nodes_addNode)
    have "set (map node_id (nodes ?st)) = insert ?new (node_id ` set (nodes st))"
      by (simp add: nodes_addNode)
    then have ids: "node_id ` set (nodes ?st) = insert ?new (node_id ` set (nodes st))"
      by simp
    have inv: "\<forall>n\<in>set (nodes ?st). node_id n = ''1'' \<or>
           (\<exists>k t. t \<in> insert now T \<and> node_id n = show_nat k @ ''-'' @ show_int t)"
    proof
      fix n assume "n \<in> set (nodes ?st)"
      then have "node_id n \<in> insert ?new (node_id ` set (nodes st))"
        using ids by blast
      then consider "node_id n = ?new" | m where "m \<in> set (nodes st)" "node_id n = node_id m"
        by auto
      then show "node_id n = ''1'' \<or>
           (\<exists>k t. t \<in> insert now T \<and> node_id n = show_nat k @ ''-'' @ show_int t)"
      proof cases
        case 1
        then show ?thesis by blast
      next
        case 2
        with Cons.prems(2) have "node_id n = ''1'' \<or>
           (\<exists>k t. t \<in> T \<and> node_id n = show_nat k @ ''-'' @ show_int t)"
          by auto
        then show ?thesis by blast
      qed
    qed
    from Cons.IH[OF d inv rest] AddNode show ?thesis by simp
  next
    case (RemoveNode nodeId)
    let ?st = "fst (removeNode nodeId st)"
    from Cons.prems(1) have d: "distinct (map node_id (nodes ?st))"
      by (simp add: nodes_removeNode distinct_map_filter)
    from Cons.prems(2) have inv: "\<forall>n\<in>set (nodes ?st). node_id n = ''1'' \<or>
           (\<exists>k t. t \<in> T \<and> node_id n = show_nat k @ ''-'' @ show_int t)"
      by (simp add: nodes_removeNode)
    from Cons.prems(3,4) RemoveNode have "distinct (addTimes ops)" "set (addTimes ops) \<inter> T = {}"
      by simp_all
    from Cons.IH[OF d inv this] RemoveNode show ?thesis by simp
  qed
qed

lemma runNodeOps_adds_only:
  assumes "distinct (map node_id (nodes st))"
    and "\<forall>n\<in>set (nodes st). node_id n = ''1'' \<or>
           (\<exists>k t. k \<le> length (nodes st) \<and> node_id n = show_nat k @ ''-'' @ show_int t)"
    and "\<forall>op\<in>set ops. isAdd op"
  shows "distinct (map node_id (nodes (runNodeOps ops st)))"
  using assms
proof (induction ops arbitrary: st)
  case Nil
  then show ?case by simp
next
  case (Cons op ops)
  from Cons.prems(3) obtain now ty pos where op: "op = AddNode now ty pos"
    by (cases op) auto
  let ?st = "fst (addNode now ty pos st)"
  let ?new = "show_nat (length (nodes st) + 1) @ ''-'' @ show_int now"
  have "?new \<notin> node_id ` set (nodes st)"
  proof
    assume "?new \<in> node_id ` set (nodes st)"
    then obtain n where n: "n \<in> set (nodes st)" "node_id n = ?new" by auto
    with Cons.prems(2) new_id_not_1 obtain k t
      where "k \<le> length (nodes st)" "?new = show_nat k @ ''-'' @ show_int t"
      by metis
    with new_id_inj[of "length (nodes st) + 1" now k t] show False by simp
  qed
  with Cons.prems(1) have d: "distinct (map node_id (nodes ?st))"
    by (simp add: nodes_addNode)
  have len: "length (nodes ?st) = length (nodes st) + 1"
    using arg_cong[OF nodes_addNode[of now ty pos st], of length] by simp
  have "set (map node_id (nodes ?st)) = insert ?new (node_id ` set (nodes st))"
    by (simp add: nodes_addNode)
  then have ids: "node_id ` set (nodes ?st) = insert ?new (node_id ` set (nodes st))"
    by simp
  have inv: "\<forall>n\<in>set (nodes ?st). node_id n = ''1'' \<or>
         (\<exists>k t. k \<le> length (nodes ?st) \<and> node_id n = show_nat k @ ''-'' @ show_int t)"
  proof
    fix n assume "n \<in> set (nodes ?st)"
    then have "node_id n \<in> insert ?new (node_id ` set (nodes st))"
      using ids by blast
    then consider "node_id n = ?new" | m where "m \<in> set (nodes st)" "node_id n = node_id m"
      by auto
    then show "node_id n = ''1'' \<or>
         (\<exists>k t. k \<le> length (nodes ?st) \<and> node_id n = show_nat k @ ''-'' @ show_int t)"
    proof cases
      case 1
      then show ?thesis
        unfolding len
        by (intro disjI2 exI[of _ "length (nodes st) + 1"] exI[of _ now]) simp
    next
      case 2
      with Cons.prems(2) have "node_id n = ''1'' \<or>
         (\<exists>k t. k \<le> length (nodes st) \<and> node_id n = show_nat k @ ''-'' @ show_int t)"
        by auto
      then show ?thesis unfolding len by (metis le_SucI Suc_eq_plus1)
    qed
  qed
  from Cons.prems(3) have "\<forall>op\<in>set ops. isAdd op" by simp
  from Cons.IH[OF d inv this] op show ?case by simp
qed

lemma initialState_ids: "map node_id (nodes initialState) = [''1'']"
  by (simp add: initialState_def initialNodes_def)

text \<open>
  A node is added, the first node is removed, and a node is added while the clock reads
  what it read at the first addition: the list has one node each time, so both new nodes
  get the id \<^verbatim>\<open>2-1700000000000\<close>.
\<close>

theorem repeated_clock_value_repeats_id:
  "map node_id (nodes (runNodeOps
      [AddNode 1700000000000 ''textNode'' \<lparr>pos_x = 220, pos_y = 240\<rparr>,
       RemoveNode ''1'',
       AddNode 1700000000000 ''textNode'' \<lparr>pos_x = 260, pos_y = 280\<rparr>] initialState))
     = [''2-1700000000000'', ''2-1700000000000'']
   \<and> \<not> distinct (map node_id (nodes (runNodeOps
      [AddNode 1700000000000 ''textNode'' \<lparr>pos_x = 220, pos_y = 240\<rparr>,
       RemoveNode ''1'',
       AddNode 1700000000000 ''textNode'' \<lparr>pos_x = 260, pos_y = 280\<rparr>] initialState)))"
  by (simp add: addNode_def removeNode_def initialState_def initialNodes_def show_simps)

text \<open>
  Claim C8, amended. From the initial state, after any sequence of additions and removals
  of nodes in which no two additions read the same clock value, the node ids are pairwise
  distinct; and after any sequence of additions alone they are pairwise distinct whatever
  the clock reads.
\<close>

theorem node_ids_distinct:
  "(distinct (addTimes ops) \<longrightarrow> distinct (map node_id (nodes (runNodeOps ops initialState))))
   \<and> ((\<forall>op\<in>set ops. isAdd op) \<longrightarrow> distinct (map node_id (nodes (runNodeOps ops initialState))))"
proof -
  have d: "distinct (map node_id (nodes initialState))"
    by (simp add: initialState_ids)
  have one: "\<forall>n\<in>set (nodes initialState). node_id n = ''1''"
    by (simp add: initialState_def initialNodes_def)
  have clock: "distinct (map node_id (nodes (runNodeOps ops initialState)))"
    if t: "distinct (addTimes ops)"
  proof -
    from one have "\<forall>n\<in>set (nodes initialState). node_id n = ''1'' \<or>
           (\<exists>k t. t \<in> {} \<and> node_id n = show_nat k @ ''-'' @ show_int t)"
      by simp
    from runNodeOps_distinct_times[OF d this t] show ?thesis by simp
  qed
  have adds: "distinct (map node_id (nodes (runNodeOps ops initialState)))"
    if a: "\<forall>op\<in>set ops. isAdd op"
  proof -
    from one have "\<forall>n\<in>set (nodes initialState). node_id n = ''1'' \<or>
           (\<exists>k t. k \<le> length (nodes initialState) \<and> node_id n = show_nat k @ ''-'' @ show_int t)"
      by simp
    from runNodeOps_adds_only[OF d this a] show ?thesis .
  qed
  from clock adds show ?thesis by blast
qed

theorem node_ids_distinct_witness:
  "distinct (addTimes
      [AddNode 1700000000000 ''textNode'' \<lparr>pos_x = 220, pos_y = 240\<rparr>,
       RemoveNode ''1'',
       AddNode 1700000004200 ''textNode'' \<lparr>pos_x = 260, pos_y = 280\<rparr>])
   \<and> map node_id (nodes (runNodeOps
      [AddNode 1700000000000 ''textNode'' \<lparr>pos_x = 220, pos_y = 240\<rparr>,
       RemoveNode ''1'',
       AddNode 1700000004200 ''textNode'' \<lparr>pos_x = 260, pos_y = 280\<rparr>] initialState))
     = [''2-1700000000000'', ''2-1700000004200'']
   \<and> list_all isAdd
      [AddNode 1700000000000 ''textNode'' \<lparr>pos_x = 220, pos_y = 240\<rparr>,
       AddNode 1700000000000 ''textNode'' \<lparr>pos_x = 260, pos_y = 280\<rparr>]
   \<and> map node_id (nodes (runNodeOps
      [AddNode 1700000000000 ''textNode'' \<lparr>pos_x = 220, pos_y = 240\<rparr>,
       AddNode 1700000000000 ''textNode'' \<lparr>pos_x = 260, pos_y = 280\<rparr>] initialState))
     = [''1'', ''2-1700000000000'', ''3-1700000000000'']
   \<and> distinct (map node_id (nodes (runNodeOps
      [AddNode 1700000000000 ''textNode'' \<lparr>pos_x = 220, pos_y = 240\<rparr>,
       RemoveNode ''1'',
       AddNode 1700000004200 ''textNode'' \<lparr>pos_x = 260, pos_y = 280\<rparr>] initialState)))
   \<and> distinct (map node_id (nodes (runNodeOps
      [AddNode 1700000000000 ''textNode'' \<lparr>pos_x = 220, pos_y = 240\<rparr>,
       AddNode 1700000000000 ''textNode'' \<lparr>pos_x = 260, pos_y = 280\<rparr>] initialState)))"
proof -
  let ?ops1 = "[AddNode 1700000000000 ''textNode'' \<lparr>pos_x = 220, pos_y = 240\<rparr>,
       RemoveNode ''1'',
       AddNode 1700000004200 ''textNode'' \<lparr>pos_x = 260, pos_y = 280\<rparr>]"
  let ?ops2 = "[AddNode 1700000000000 ''textNode'' \<lparr>pos_x = 220, pos_y = 240\<rparr>,
       AddNode 1700000000000 ''textNode'' \<lparr>pos_x = 260, pos_y = 280\<rparr>]"
  have h1: "distinct (addTimes ?ops1)" by simp
  have h2: "list_all isAdd ?ops2" by simp
  then have h2': "\<forall>op\<in>set ?ops2. isAdd op" by (simp only: list_all_iff)
  have e1: "map node_id (nodes (runNodeOps ?ops1 initialState)) = [''2-1700000000000'', ''2-1700000004200'']"
    by (simp add: addNode_def removeNode_def initialState_def initialNodes_def show_simps)
  have e2: "map node_id (nodes (runNodeOps ?ops2 initialState)) = [''1'', ''2-1700000000000'', ''3-1700000000000'']"
    by (simp add: addNode_def removeNode_def initialState_def initialNodes_def show_simps)
  from node_ids_distinct[of ?ops1] h1
  have d1: "distinct (map node_id (nodes (runNodeOps ?ops1 initialState)))" by blast
  from node_ids_distinct[of ?ops2] h2'
  have d2: "distinct (map node_id (nodes (runNodeOps ?ops2 initialState)))" by blast
  from h1 h2 e1 e2 d1 d2 show ?thesis by (intro conjI)
qed

end
